theory Spec2Isabelle
  imports Main
begin

section \<open>Python and library behaviour the ledger code relies on\<close>

text \<open>
  The engine of \<^verbatim>\<open>src/app.py\<close> is the pair \<^verbatim>\<open>add_loan\<close> / \<^verbatim>\<open>add_collection\<close>.
  Both read the three sheets, compute on them and write all three back with
  \<^verbatim>\<open>save_all_data\<close> as their last statement. An exception raised on the way leaves
  the sheets as they were. The exceptions that the two functions can raise on their own
  are the ones below.
\<close>

datatype error = KeyError | IndexError | OverflowError

subsection \<open>Decimal formatting of the identifiers: \<^verbatim>\<open>f"{n:04d}"\<close>\<close>

definition digit_char :: "nat \<Rightarrow> char" where
  "digit_char d = char_of (48 + d)"

fun str_nat :: "nat \<Rightarrow> string" where
  "str_nat n = (if n < 10 then [digit_char n] else str_nat (n div 10) @ [digit_char (n mod 10)])"

declare str_nat.simps [simp del]

text \<open>\<^verbatim>\<open>format(n, "0wd")\<close> for a non-negative \<open>n\<close>: zeros on the left up to width \<open>w\<close>,
  never a truncation.\<close>

definition format_d :: "nat \<Rightarrow> nat \<Rightarrow> string" where
  "format_d w n = replicate (w - length (str_nat n)) (CHR ''0'') @ str_nat n"

text \<open>Reading a decimal string back; used only to show that formatting loses nothing.\<close>

definition digit_val :: "char \<Rightarrow> nat" where
  "digit_val c = of_char c - 48"

definition parse_nat :: "string \<Rightarrow> nat" where
  "parse_nat cs = foldl (\<lambda>acc c. 10 * acc + digit_val c) 0 cs"

subsection \<open>\<^verbatim>\<open>datetime\<close>: \<^verbatim>\<open>now + timedelta(days=d)\<close> and \<^verbatim>\<open>strftime\<close>\<close>

text \<open>
  A \<^verbatim>\<open>datetime\<close> is its proleptic Gregorian day number (\<^verbatim>\<open>toordinal()\<close>, 1 is
  0001-01-01 and 3652059 is 9999-12-31) and the time of day. Microseconds do not
  reach any formatted field and are left out.
\<close>

record datetime =
  toordinal :: int
  hour :: nat
  minute :: nat
  second :: nat

definition MAXORDINAL :: int where
  "MAXORDINAL = 3652059"

text \<open>\<^verbatim>\<open>timedelta(days=d)\<close> raises OverflowError beyond 999999999 days.\<close>

definition timedelta :: "int \<Rightarrow> error + int" where
  "timedelta days = (if \<bar>days\<bar> > 999999999 then Inl OverflowError else Inr days)"

text \<open>\<^verbatim>\<open>datetime.__add__\<close>: the sum must be a day of the years 1 to 9999.\<close>

definition datetime_add :: "datetime \<Rightarrow> int \<Rightarrow> error + datetime" where
  "datetime_add t delta =
     (let d = toordinal t + delta
      in if 0 < d \<and> d \<le> MAXORDINAL then Inr (t\<lparr>toordinal := d\<rparr>) else Inl OverflowError)"

definition DAYS_IN_MONTH :: "int list" where
  "DAYS_IN_MONTH = [-1, 31, 28, 31, 30, 31, 30, 31, 31, 30, 31, 30, 31]"

definition DAYS_BEFORE_MONTH :: "int list" where
  "DAYS_BEFORE_MONTH = [-1, 0, 31, 59, 90, 120, 151, 181, 212, 243, 273, 304, 334]"

text \<open>The day number as year, month and day, as CPython's \<^verbatim>\<open>_ord2ymd\<close> computes it.\<close>

definition ord2ymd :: "int \<Rightarrow> int \<times> int \<times> int" where
  "ord2ymd n0 =
     (let n = n0 - 1;
          n400 = n div 146097; n = n mod 146097;
          year = n400 * 400 + 1;
          n100 = n div 36524; n = n mod 36524;
          n4 = n div 1461; n = n mod 1461;
          n1 = n div 365; n = n mod 365;
          year = year + n100 * 100 + n4 * 4 + n1
      in if n1 = 4 \<or> n100 = 4 then (year - 1, 12, 31)
         else
           let leapyear = (n1 = 3 \<and> (n4 \<noteq> 24 \<or> n100 = 3));
               month = (n + 50) div 32;
               preceding = DAYS_BEFORE_MONTH ! nat month + (if month > 2 \<and> leapyear then 1 else 0)
           in if preceding > n then
                let month = month - 1;
                    preceding = preceding - (DAYS_IN_MONTH ! nat month + (if month = 2 \<and> leapyear then 1 else 0))
                in (year, month, n - preceding + 1)
              else (year, month, n - preceding + 1))"

text \<open>
  \<^verbatim>\<open>strftime("%Y-%m-%d")\<close> and \<^verbatim>\<open>strftime("%Y-%m-%d %H:%M:%S")\<close>. The year is
  written with four digits, as it is for every year from 1000 on.
\<close>

definition strftime_date :: "datetime \<Rightarrow> string" where
  "strftime_date t =
     (case ord2ymd (toordinal t) of
        (y, m, d) \<Rightarrow> format_d 4 (nat y) @ ''-'' @ format_d 2 (nat m) @ ''-'' @ format_d 2 (nat d))"

definition strftime_datetime :: "datetime \<Rightarrow> string" where
  "strftime_datetime t =
     strftime_date t @ '' '' @ format_d 2 (hour t) @ '':'' @ format_d 2 (minute t)
       @ '':'' @ format_d 2 (second t)"

subsection \<open>Python floats\<close>

text \<open>
  The forms hand amounts over as Python floats, and \<^verbatim>\<open>add_collection\<close> updates them with
  \<^verbatim>\<open>+=\<close> and \<^verbatim>\<open>-=\<close> and tests \<^verbatim>\<open><= 0\<close>. A float is an IEEE 754 binary64 value: the
  finite value \<open>Finite m e\<close> is \<open>m\<close> times 2 to the power \<open>e\<close>, and \<open>to_double m e\<close> is
  the float nearest to that number, ties going to the even mantissa, with gradual
  underflow below 2 to the power -1022 and infinity from 2 to the power 1024 on. The sum
  and the difference of two floats are the exact sum and difference, rounded once. The
  sign of zero is left out.
\<close>

function bit_length :: "int \<Rightarrow> nat" where
  "bit_length n = (if n \<le> 0 then 0 else Suc (bit_length (n div 2)))"
  by pat_completeness auto
termination
  by (relation "measure nat") auto

declare bit_length.simps [simp del]

datatype double = Finite int int | Plus_Infinity | Minus_Infinity | Not_A_Number

text \<open>\<open>m\<close> divided by 2 to the power \<open>s\<close>, rounded to the nearest integer, ties to even.\<close>

definition round_shift :: "int \<Rightarrow> nat \<Rightarrow> int" where
  "round_shift m s =
     (let q = m div 2 ^ s; r = m mod 2 ^ s; half = 2 ^ (s - 1)
      in if r < half then q else if half < r then q + 1 else if even q then q else q + 1)"

text \<open>
  The result has a mantissa below 2 to the power 53 in magnitude and the exponent that
  the magnitude of the number calls for, at least -1074; every float has one such form.
\<close>

definition to_double :: "int \<Rightarrow> int \<Rightarrow> double" where
  "to_double m e =
     (if m = 0 then Finite 0 0
      else
        let top = e + int (bit_length \<bar>m\<bar>) - 1;
            k = max top (- 1022) - 52;
            n = (if k \<le> e then m * 2 ^ nat (e - k) else round_shift m (nat (k - e)));
            (n, k) = (if \<bar>n\<bar> = 2 ^ 53 then (n div 2, k + 1) else (n, k))
        in if n = 0 then Finite 0 0
           else if 971 < k then (if 0 < n then Plus_Infinity else Minus_Infinity)
           else Finite n k)"


fun double_add :: "double \<Rightarrow> double \<Rightarrow> double" where
  "double_add (Finite m1 e1) (Finite m2 e2) =
     (let e = min e1 e2 in to_double (m1 * 2 ^ nat (e1 - e) + m2 * 2 ^ nat (e2 - e)) e)"
| "double_add Not_A_Number y = Not_A_Number"
| "double_add x Not_A_Number = Not_A_Number"
| "double_add Plus_Infinity Minus_Infinity = Not_A_Number"
| "double_add Minus_Infinity Plus_Infinity = Not_A_Number"
| "double_add Plus_Infinity y = Plus_Infinity"
| "double_add x Plus_Infinity = Plus_Infinity"
| "double_add Minus_Infinity y = Minus_Infinity"
| "double_add x Minus_Infinity = Minus_Infinity"

fun double_neg :: "double \<Rightarrow> double" where
  "double_neg (Finite m e) = Finite (- m) e"
| "double_neg Plus_Infinity = Minus_Infinity"
| "double_neg Minus_Infinity = Plus_Infinity"
| "double_neg Not_A_Number = Not_A_Number"

text \<open>Python's \<^verbatim>\<open><\<close> and \<^verbatim>\<open>==\<close> on floats: a comparison with NaN is false.\<close>

fun double_less :: "double \<Rightarrow> double \<Rightarrow> bool" where
  "double_less (Finite m1 e1) (Finite m2 e2) =
     (let e = min e1 e2 in m1 * 2 ^ nat (e1 - e) < m2 * 2 ^ nat (e2 - e))"
| "double_less Not_A_Number y = False"
| "double_less x Not_A_Number = False"
| "double_less Minus_Infinity Minus_Infinity = False"
| "double_less Minus_Infinity y = True"
| "double_less x Minus_Infinity = False"
| "double_less Plus_Infinity y = False"
| "double_less x Plus_Infinity = True"

fun double_eq :: "double \<Rightarrow> double \<Rightarrow> bool" where
  "double_eq (Finite m1 e1) (Finite m2 e2) =
     (let e = min e1 e2 in m1 * 2 ^ nat (e1 - e) = m2 * 2 ^ nat (e2 - e))"
| "double_eq Plus_Infinity Plus_Infinity = True"
| "double_eq Minus_Infinity Minus_Infinity = True"
| "double_eq x y = False"

instantiation double :: "{zero, plus, minus, ord}"
begin

definition zero_double :: double where
  "zero_double = Finite 0 0"

definition plus_double :: "double \<Rightarrow> double \<Rightarrow> double" where
  "plus_double x y = double_add x y"

definition minus_double :: "double \<Rightarrow> double \<Rightarrow> double" where
  "minus_double x y = double_add x (double_neg y)"

definition less_double :: "double \<Rightarrow> double \<Rightarrow> bool" where
  "less_double x y = double_less x y"

definition less_eq_double :: "double \<Rightarrow> double \<Rightarrow> bool" where
  "less_eq_double x y = (double_less x y \<or> double_eq x y)"

instance ..

end

section \<open>The ledger\<close>

text \<open>
  One row of the sheets \<^verbatim>\<open>Active_Loans\<close> and \<^verbatim>\<open>Completed_Loans\<close>, with the columns
  of the dictionary built in \<^verbatim>\<open>add_loan\<close>. \<^verbatim>\<open>Completion_Date\<close> is the column that
  \<^verbatim>\<open>add_collection\<close> adds to a row on its way to \<^verbatim>\<open>Completed_Loans\<close>; a row that
  never got it has \<open>None\<close>. The amounts are Python numbers of one type \<open>'a\<close>; the code
  uses only its 0, \<^verbatim>\<open>+\<close>, \<^verbatim>\<open>-\<close> and \<^verbatim>\<open><=\<close>. Python's \<^verbatim>\<open>int\<close> is the instance \<open>int\<close>, and
  Python's \<^verbatim>\<open>float\<close>, which is what the forms pass, is the instance \<open>double\<close>.
\<close>

record 'a loan =
  Loan_ID :: string
  Date :: string
  Party_Name :: string
  Mobile_Number :: string
  Total_Amount :: 'a
  Daily_Amount :: 'a
  Total_Days :: int
  End_Date :: string
  Payment_Mode :: string
  Collected_Amount :: 'a
  Remaining_Amount :: 'a
  Status :: string
  Completion_Date :: "string option"

text \<open>
  One row of the sheet \<^verbatim>\<open>Collections\<close>. The columns \<^verbatim>\<open>Date\<close>, \<^verbatim>\<open>Loan_ID\<close>,
  \<^verbatim>\<open>Party_Name\<close> and \<^verbatim>\<open>Payment_Mode\<close> carry the prefix \<open>C_\<close> here, as a loan row
  has columns of the same names.
\<close>

record 'a collection =
  Collection_ID :: string
  C_Date :: string
  C_Loan_ID :: string
  C_Party_Name :: string
  Amount_Collected :: 'a
  Days_Count :: int
  C_Payment_Mode :: string

text \<open>
  The spreadsheet: the rows of the three sheets, in sheet order. Reading and writing a
  sheet belong to the storage adapter; they are taken to succeed and to give back the
  rows as they were written. The loaders are cached, and \<^verbatim>\<open>save_all_data\<close> clears the
  cache after writing, so a loader returns what was saved last.
\<close>

record 'a sheets =
  Active_Loans :: "'a loan list"
  Completed_Loans :: "'a loan list"
  Collections :: "'a collection list"

definition empty_sheets :: "'a sheets" where
  "empty_sheets = \<lparr>Active_Loans = [], Completed_Loans = [], Collections = []\<rparr>"

definition load_active_loans :: "'a sheets \<Rightarrow> 'a loan list" where
  "load_active_loans s = Active_Loans s"

definition load_completed_loans :: "'a sheets \<Rightarrow> 'a loan list" where
  "load_completed_loans s = Completed_Loans s"

definition load_collections :: "'a sheets \<Rightarrow> 'a collection list" where
  "load_collections s = Collections s"

definition save_all_data ::
  "'a loan list \<Rightarrow> 'a loan list \<Rightarrow> 'a collection list \<Rightarrow> 'a sheets \<Rightarrow> 'a sheets" where
  "save_all_data active_df completed_df collections_df s =
     s\<lparr>Active_Loans := active_df, Completed_Loans := completed_df, Collections := collections_df\<rparr>"

subsection \<open>\<^verbatim>\<open>add_loan\<close>\<close>

text \<open>
  The clock reading \<open>now\<close> of \<^verbatim>\<open>datetime.now()\<close> is a parameter. The result is the
  returned identifier or the exception, and the sheets after the call. The parameter
  \<^verbatim>\<open>total\<close> is written \<open>total_amt\<close>.
\<close>

definition add_loan ::
  "string \<Rightarrow> string \<Rightarrow> 'a::zero \<Rightarrow> 'a \<Rightarrow> int \<Rightarrow> string \<Rightarrow> datetime \<Rightarrow> 'a sheets
     \<Rightarrow> (error + string) \<times> 'a sheets" where
  "add_loan party mobile total_amt daily days mode now s =
     (let active = load_active_loans s;
          completed = load_completed_loans s;
          collections = load_collections s;
          loan_id = ''L'' @ format_d 4 (length active + length completed + 1)
      in case timedelta days of
           Inl e \<Rightarrow> (Inl e, s)
         | Inr delta \<Rightarrow>
             (case datetime_add now delta of
                Inl e \<Rightarrow> (Inl e, s)
              | Inr end_dt \<Rightarrow>
                  let new = \<lparr>Loan_ID = loan_id,
                             Date = strftime_datetime now,
                             Party_Name = party,
                             Mobile_Number = mobile,
                             Total_Amount = total_amt,
                             Daily_Amount = daily,
                             Total_Days = days,
                             End_Date = strftime_date end_dt,
                             Payment_Mode = mode,
                             Collected_Amount = 0,
                             Remaining_Amount = total_amt,
                             Status = ''Active'',
                             Completion_Date = None\<rparr>;
                      active = active @ [new]
                  in (Inr loan_id, save_all_data active completed collections s)))"

subsection \<open>\<^verbatim>\<open>add_collection\<close>\<close>

text \<open>
  \<^verbatim>\<open>active[active["Loan_ID"] == loan_id].index[0]\<close>: the position of the first row
  with that identifier. A sheet without rows is read as a frame without columns, where
  the selection of the column raises KeyError; with rows and no match, \<^verbatim>\<open>.index[0]\<close>
  raises IndexError.
\<close>

fun first_index :: "string \<Rightarrow> 'a loan list \<Rightarrow> nat option" where
  "first_index lid [] = None"
| "first_index lid (r # rs) =
     (if Loan_ID r = lid then Some 0 else map_option Suc (first_index lid rs))"

text \<open>\<^verbatim>\<open>active.drop(idx).reset_index(drop=True)\<close>\<close>

definition drop_row :: "nat \<Rightarrow> 'a list \<Rightarrow> 'a list" where
  "drop_row idx rows = take idx rows @ drop (Suc idx) rows"

text \<open>
  \<open>now_done\<close> is the clock reading taken in the completion branch, \<open>now\<close> the one taken
  for the collection row.
\<close>

definition add_collection ::
  "string \<Rightarrow> 'a::{zero,plus,minus,ord} \<Rightarrow> int \<Rightarrow> string \<Rightarrow> datetime \<Rightarrow> datetime \<Rightarrow> 'a sheets
     \<Rightarrow> (error + unit) \<times> 'a sheets" where
  "add_collection loan_id amount days_count payment_mode now_done now s =
     (let active = load_active_loans s;
          completed = load_completed_loans s;
          collections = load_collections s
      in if active = [] then (Inl KeyError, s)
         else
           (case first_index loan_id active of
              None \<Rightarrow> (Inl IndexError, s)
            | Some idx \<Rightarrow>
                let party = Party_Name (active ! idx);
                    active = active[idx := (active ! idx)
                               \<lparr>Collected_Amount := Collected_Amount (active ! idx) + amount\<rparr>];
                    active = active[idx := (active ! idx)
                               \<lparr>Remaining_Amount := Remaining_Amount (active ! idx) - amount\<rparr>];
                    (active, completed) =
                      (if Remaining_Amount (active ! idx) \<le> 0 then
                         let completed_loan = (active ! idx)
                               \<lparr>Completion_Date := Some (strftime_datetime now_done)\<rparr>;
                             completed = completed @ [completed_loan];
                             active = drop_row idx active
                         in (active, completed)
                       else (active, completed));
                    cid = ''C'' @ format_d 5 (length collections + 1);
                    newc = \<lparr>Collection_ID = cid,
                             C_Date = strftime_datetime now,
                             C_Loan_ID = loan_id,
                             C_Party_Name = party,
                             Amount_Collected = amount,
                             Days_Count = days_count,
                             C_Payment_Mode = payment_mode\<rparr>;
                    collections = collections @ [newc]
                in (Inr (), save_all_data active completed collections s)))"

section \<open>Sessions and the properties of a ledger\<close>

text \<open>
  The presentation layer (\<^verbatim>\<open>main\<close>) calls \<^verbatim>\<open>add_loan\<close> from the form "Give Money"
  and \<^verbatim>\<open>add_collection\<close> from the form "Collect Money". A request is one such call
  with its arguments and the clock readings it will see. A call that raises leaves the
  sheets as they were, and the next request runs on them.
\<close>

datatype 'a request =
    Give_Money string string 'a 'a int string datetime
  | Collect_Money string 'a int string datetime datetime

fun perform :: "'a::{zero,plus,minus,ord} request \<Rightarrow> 'a sheets \<Rightarrow> 'a sheets" where
  "perform (Give_Money party mobile total_amt daily days mode now) s =
     snd (add_loan party mobile total_amt daily days mode now s)"
| "perform (Collect_Money loan_id amount days_count payment_mode now_done now) s =
     snd (add_collection loan_id amount days_count payment_mode now_done now s)"

fun session :: "'a::{zero,plus,minus,ord} request list \<Rightarrow> 'a sheets \<Rightarrow> 'a sheets" where
  "session [] s = s"
| "session (r # rs) s = session rs (perform r s)"

text \<open>The identifier that a request returns, if it returns one.\<close>

fun returned_id :: "'a::zero request \<Rightarrow> 'a sheets \<Rightarrow> string list" where
  "returned_id (Give_Money party mobile total_amt daily days mode now) s =
     (case fst (add_loan party mobile total_amt daily days mode now s) of
        Inl e \<Rightarrow> [] | Inr loan_id \<Rightarrow> [loan_id])"
| "returned_id (Collect_Money loan_id amount days_count payment_mode now_done now) s = []"

fun created_ids :: "'a::{zero,plus,minus,ord} request list \<Rightarrow> 'a sheets \<Rightarrow> string list" where
  "created_ids [] s = []"
| "created_ids (r # rs) s = returned_id r s @ created_ids rs (perform r s)"


text \<open>\<^verbatim>\<open>len(active) + len(completed)\<close>, the number from which \<^verbatim>\<open>add_loan\<close> derives
  the next identifier.\<close>

definition loan_count :: "'a sheets \<Rightarrow> nat" where
  "loan_count s = length (Active_Loans s) + length (Completed_Loans s)"

definition loan_ids :: "'a sheets \<Rightarrow> string list" where
  "loan_ids s = map Loan_ID (Active_Loans s @ Completed_Loans s)"

definition balanced :: "'a::minus loan \<Rightarrow> bool" where
  "balanced l \<longleftrightarrow> Remaining_Amount l = Total_Amount l - Collected_Amount l"

definition ledger_balanced :: "'a::minus sheets \<Rightarrow> bool" where
  "ledger_balanced s \<longleftrightarrow> list_all balanced (Active_Loans s @ Completed_Loans s)"

text \<open>The two in-place updates of \<^verbatim>\<open>add_collection\<close> on one row, taken together.\<close>

definition credit :: "'a::{plus,minus} \<Rightarrow> 'a loan \<Rightarrow> 'a loan" where
  "credit amount r = r\<lparr>Collected_Amount := Collected_Amount r + amount,
                        Remaining_Amount := Remaining_Amount r - amount\<rparr>"

text \<open>
  The loan identifiers of a ledger that \<^verbatim>\<open>add_loan\<close> numbered: pairwise distinct, each
  the formatted number of a loan counted so far. The second predicate says that every
  loan row reads Active in its status column.
\<close>

definition ids_in_sequence :: "'a sheets \<Rightarrow> bool" where
  "ids_in_sequence s \<longleftrightarrow>
     distinct (loan_ids s) \<and>
     set (loan_ids s) \<subseteq> (\<lambda>k. ''L'' @ format_d 4 k) ` {1 .. loan_count s}"

definition all_status_active :: "'a sheets \<Rightarrow> bool" where
  "all_status_active s \<longleftrightarrow>
     list_all (\<lambda>l. Status l = ''Active'') (Active_Loans s @ Completed_Loans s)"

text \<open>
  A collection is free of rounding error on a loan row when taking the new collected
  amount from the total gives what taking the amount from the remaining amount gives.
  A request is exact when it is such a collection on the row it finds, or a new loan
  whose total is not changed by taking 0 from it, or a collection that finds no row.
\<close>

definition exact_credit :: "'a::{plus,minus} \<Rightarrow> 'a loan \<Rightarrow> bool" where
  "exact_credit amount r \<longleftrightarrow>
     Total_Amount r - (Collected_Amount r + amount) =
       Total_Amount r - Collected_Amount r - amount"

fun exact_request :: "'a::{zero,plus,minus} request \<Rightarrow> 'a sheets \<Rightarrow> bool" where
  "exact_request (Give_Money party mobile total_amt daily days mode now) s =
     (total_amt - 0 = total_amt)"
| "exact_request (Collect_Money loan_id amount days_count payment_mode now_done now) s =
     (case first_index loan_id (Active_Loans s) of
        None \<Rightarrow> True
      | Some idx \<Rightarrow> exact_credit amount (Active_Loans s ! idx))"

fun exact_session :: "'a::{zero,plus,minus,ord} request list \<Rightarrow> 'a sheets \<Rightarrow> bool" where
  "exact_session [] s = True"
| "exact_session (r # rs) s = (exact_request r s \<and> exact_session rs (perform r s))"

text \<open>
  A run of amounts settles a remaining amount when every collection but the last leaves
  it above the completion test of \<^verbatim>\<open>add_collection\<close> and the last one brings it to 0.
\<close>

fun settles :: "'a::{zero,minus,ord} \<Rightarrow> 'a list \<Rightarrow> bool" where
  "settles r [] = False"
| "settles r [a] = (r - a \<le> 0 \<and> r - a = 0)"
| "settles r (a # b # amounts) = (\<not> r - a \<le> 0 \<and> settles (r - a) (b # amounts))"

subsection \<open>Example ledgers\<close>

text \<open>The clock at 2024-01-31 10:05:09 and one hour later.\<close>

definition clock0 :: datetime where
  "clock0 = \<lparr>toordinal = 738916, hour = 10, minute = 5, second = 9\<rparr>"

definition clock1 :: datetime where
  "clock1 = \<lparr>toordinal = 738916, hour = 11, minute = 5, second = 9\<rparr>"

text \<open>The scenario of the specification: a loan of 1000, 100 a day for 10 days, on an
  empty ledger; the same ledger after the loan was collected in full; and a ledger with
  a second loan.\<close>

definition ledger1 :: "int sheets" where
  "ledger1 = snd (add_loan ''Asha'' ''9876543210'' 1000 100 10 ''Cash'' clock0 empty_sheets)"

definition ledger_paid :: "int sheets" where
  "ledger_paid = snd (add_collection ''L0001'' 1000 10 ''Cash'' clock1 clock1 ledger1)"

definition ledger2 :: "int sheets" where
  "ledger2 = snd (add_loan ''Ravi'' ''9123456780'' 500 50 10 ''UPI'' clock1 ledger1)"










section \<open>Auxiliary facts\<close>

lemma digit_val_digit_char: "d < 10 \<Longrightarrow> digit_val (digit_char d) = d"
  by (simp add: digit_val_def digit_char_def)

lemma parse_nat_snoc: "parse_nat (cs @ [c]) = 10 * parse_nat cs + digit_val c"
  by (simp add: parse_nat_def)

lemma parse_nat_str_nat: "parse_nat (str_nat n) = n"
proof (induction n rule: str_nat.induct)
  case (1 n)
  show ?case
  proof (cases "n < 10")
    case True
    then show ?thesis
      by (simp add: str_nat.simps [of n] parse_nat_def digit_val_digit_char)
  next
    case False
    with 1 have "parse_nat (str_nat (n div 10)) = n div 10" by simp
    with False show ?thesis
      by (simp add: str_nat.simps [of n] parse_nat_snoc digit_val_digit_char)
  qed
qed

lemma parse_nat_zeros: "parse_nat (replicate k (CHR ''0'') @ cs) = parse_nat cs"
proof -
  have "foldl (\<lambda>acc c. 10 * acc + digit_val c) 0 (replicate k (CHR ''0'')) = 0"
    by (induction k) (simp_all add: digit_val_def)
  then show ?thesis by (simp add: parse_nat_def)
qed

lemma parse_nat_format_d: "parse_nat (format_d w n) = n"
  by (simp add: format_d_def parse_nat_zeros parse_nat_str_nat)

lemma format_d_inj: "format_d w m = format_d w n \<Longrightarrow> m = n"
  by (metis parse_nat_format_d)

lemma first_index_None: "first_index lid rs = None \<longleftrightarrow> lid \<notin> set (map Loan_ID rs)"
  by (induction rs) auto

lemma first_index_Some:
  "first_index lid rs = Some i \<Longrightarrow> i < length rs \<and> Loan_ID (rs ! i) = lid"
  by (induction rs arbitrary: i) (auto split: if_splits)

lemma add_collection_found:
  assumes "first_index loan_id (Active_Loans s) = Some idx"
  shows "add_collection loan_id amount days_count payment_mode now_done now s =
    (Inr (),
     s\<lparr>Active_Loans :=
         (if Remaining_Amount (Active_Loans s ! idx) - amount \<le> 0
          then drop_row idx (Active_Loans s)
          else (Active_Loans s)[idx := credit amount (Active_Loans s ! idx)]),
       Completed_Loans :=
         (if Remaining_Amount (Active_Loans s ! idx) - amount \<le> 0
          then Completed_Loans s @
                 [(credit amount (Active_Loans s ! idx))
                    \<lparr>Completion_Date := Some (strftime_datetime now_done)\<rparr>]
          else Completed_Loans s),
       Collections := Collections s @
         [\<lparr>Collection_ID = ''C'' @ format_d 5 (length (Collections s) + 1),
           C_Date = strftime_datetime now,
           C_Loan_ID = loan_id,
           C_Party_Name = Party_Name (Active_Loans s ! idx),
           Amount_Collected = amount,
           Days_Count = days_count,
           C_Payment_Mode = payment_mode\<rparr>]\<rparr>)"
proof -
  from assms have len: "idx < length (Active_Loans s)"
    by (simp add: first_index_Some)
  then have ne: "Active_Loans s \<noteq> []" by auto
  have dr: "drop_row idx ((Active_Loans s)[idx := x]) = drop_row idx (Active_Loans s)" for x
    by (simp add: drop_row_def)
  from assms len ne show ?thesis
    by (simp add: add_collection_def load_active_loans_def load_completed_loans_def
        load_collections_def save_all_data_def Let_def credit_def dr)
qed

lemma add_collection_absent:
  assumes "first_index loan_id (Active_Loans s) = None"
  shows "add_collection loan_id amount days_count payment_mode now_done now s =
           (Inl (if Active_Loans s = [] then KeyError else IndexError), s)"
  using assms by (simp add: add_collection_def load_active_loans_def Let_def)

lemma add_loan_result:
  "add_loan party mobile total_amt daily days mode now s =
     (if \<bar>days\<bar> \<le> 999999999 \<and> 0 < toordinal now + days \<and> toordinal now + days \<le> MAXORDINAL
      then (Inr (''L'' @ format_d 4 (loan_count s + 1)),
            s\<lparr>Active_Loans := Active_Loans s @
                [\<lparr>Loan_ID = ''L'' @ format_d 4 (loan_count s + 1),
                  Date = strftime_datetime now,
                  Party_Name = party,
                  Mobile_Number = mobile,
                  Total_Amount = total_amt,
                  Daily_Amount = daily,
                  Total_Days = days,
                  End_Date = strftime_date (now\<lparr>toordinal := toordinal now + days\<rparr>),
                  Payment_Mode = mode,
                  Collected_Amount = 0,
                  Remaining_Amount = total_amt,
                  Status = ''Active'',
                  Completion_Date = None\<rparr>]\<rparr>)
      else (Inl OverflowError, s))"
  by (simp add: add_loan_def timedelta_def datetime_add_def load_active_loans_def
      load_completed_loans_def load_collections_def save_all_data_def Let_def loan_count_def)

lemma first_index_cong:
  "map Loan_ID rs' = map Loan_ID rs \<Longrightarrow> first_index lid rs' = first_index lid rs"
proof (induction rs arbitrary: rs')
  case Nil
  then show ?case by simp
next
  case (Cons r rs)
  then obtain q qs where q: "rs' = q # qs" by (cases rs') simp_all
  with Cons.prems have "Loan_ID q = Loan_ID r" and "map Loan_ID qs = map Loan_ID rs" by simp_all
  with Cons.IH [of qs] q show ?case by simp
qed

lemma Loan_ID_credit: "Loan_ID (credit amount r) = Loan_ID r"
  by (simp add: credit_def)

lemma map_Loan_ID_credit:
  "map Loan_ID (rows[idx := credit amount (rows ! idx)]) = map Loan_ID rows"
proof (cases "idx < length rows")
  case True
  then have "(map Loan_ID rows)[idx := Loan_ID (rows ! idx)] = map Loan_ID rows"
    by (simp add: list_update_same_conv)
  then show ?thesis by (simp add: map_update Loan_ID_credit)
next
  case False
  then have "length rows \<le> idx" by simp
  then have "rows[idx := credit amount (rows ! idx)] = rows" by (rule list_update_beyond)
  then show ?thesis by simp
qed

lemma map_drop_row: "map f (drop_row idx rows) = drop_row idx (map f rows)"
  by (simp add: drop_row_def take_map drop_map)

lemma set_drop_row: "set (drop_row idx rows) \<subseteq> set rows"
proof
  fix x assume "x \<in> set (drop_row idx rows)"
  then have "x \<in> set (take idx rows) \<or> x \<in> set (drop (Suc idx) rows)"
    by (simp add: drop_row_def)
  then show "x \<in> set rows"
    using in_set_takeD in_set_dropD by fast
qed

lemma length_drop_row: "idx < length rows \<Longrightarrow> Suc (length (drop_row idx rows)) = length rows"
  by (simp add: drop_row_def)

lemma distinct_drop_row:
  assumes "distinct ks" and "idx < length ks"
  shows "ks ! idx \<notin> set (drop_row idx ks)"
proof -
  from assms(2) have "ks = take idx ks @ ks ! idx # drop (Suc idx) ks"
    by (rule id_take_nth_drop)
  with assms(1) have "distinct (take idx ks @ ks ! idx # drop (Suc idx) ks)" by simp
  then show ?thesis by (simp add: drop_row_def)
qed

lemma distinct_drop_row_keeps:
  assumes "distinct ks"
  shows "distinct (drop_row idx ks)"
proof (cases "idx < length ks")
  case True
  then have "ks = take idx ks @ ks ! idx # drop (Suc idx) ks"
    by (rule id_take_nth_drop)
  with assms have "distinct (take idx ks @ ks ! idx # drop (Suc idx) ks)" by simp
  then show ?thesis by (simp add: drop_row_def)
next
  case False
  with assms show ?thesis by (simp add: drop_row_def)
qed


lemma found_in_active:
  assumes "first_index loan_id (Active_Loans s) = Some idx"
  shows "idx < length (map Loan_ID (Active_Loans s))"
    and "map Loan_ID (Active_Loans s) ! idx = loan_id"
    and "loan_id \<in> set (map Loan_ID (Active_Loans s))"
proof -
  from assms have len: "idx < length (Active_Loans s)" and lid: "Loan_ID (Active_Loans s ! idx) = loan_id"
    by (simp_all add: first_index_Some)
  from len show "idx < length (map Loan_ID (Active_Loans s))" by simp
  from len lid show "map Loan_ID (Active_Loans s) ! idx = loan_id" by simp
  from len lid show "loan_id \<in> set (map Loan_ID (Active_Loans s))"
    by (metis length_map nth_map nth_mem)
qed

lemma partial_step:
  assumes found: "first_index loan_id (Active_Loans s) = Some idx"
      and no: "\<not> Remaining_Amount (Active_Loans s ! idx) - amount \<le> 0"
  shows "Active_Loans (snd (add_collection loan_id amount days_count payment_mode now_done now s)) =
           (Active_Loans s)[idx := credit amount (Active_Loans s ! idx)]"
    and "Completed_Loans (snd (add_collection loan_id amount days_count payment_mode now_done now s)) =
           Completed_Loans s"
    and "first_index loan_id
           (Active_Loans (snd (add_collection loan_id amount days_count payment_mode now_done now s))) =
           Some idx"
    and "loan_ids (snd (add_collection loan_id amount days_count payment_mode now_done now s)) =
           loan_ids s"
    and "Remaining_Amount
           (Active_Loans (snd (add_collection loan_id amount days_count payment_mode now_done now s)) ! idx) =
           Remaining_Amount (Active_Loans s ! idx) - amount"
proof -
  let ?A = "Active_Loans s"
  let ?s' = "snd (add_collection loan_id amount days_count payment_mode now_done now s)"
  from found have len: "idx < length ?A" by (simp add: first_index_Some)
  from no show A: "Active_Loans ?s' = ?A[idx := credit amount (?A ! idx)]"
    by (simp add: add_collection_found [OF found])
  from no show C: "Completed_Loans ?s' = Completed_Loans s"
    by (simp add: add_collection_found [OF found])
  show "first_index loan_id (Active_Loans ?s') = Some idx"
    by (simp add: A found first_index_cong [OF map_Loan_ID_credit])
  show "loan_ids ?s' = loan_ids s"
    by (simp add: loan_ids_def A C map_Loan_ID_credit)
  from len show "Remaining_Amount (Active_Loans ?s' ! idx) = Remaining_Amount (?A ! idx) - amount"
    by (simp add: A credit_def)
qed

lemma completion_step:
  assumes found: "first_index loan_id (Active_Loans s) = Some idx"
      and ids: "distinct (loan_ids s)"
      and paid: "Remaining_Amount (Active_Loans s ! idx) - amount \<le> 0"
  shows "Active_Loans (snd (add_collection loan_id amount days_count payment_mode now_done now s)) =
           drop_row idx (Active_Loans s)"
    and "Completed_Loans (snd (add_collection loan_id amount days_count payment_mode now_done now s)) =
           Completed_Loans s @
             [(credit amount (Active_Loans s ! idx))
                \<lparr>Completion_Date := Some (strftime_datetime now_done)\<rparr>]"
    and "loan_id \<notin> set (map Loan_ID
           (Active_Loans (snd (add_collection loan_id amount days_count payment_mode now_done now s))))"
    and "filter (\<lambda>l. Loan_ID l = loan_id)
           (Completed_Loans (snd (add_collection loan_id amount days_count payment_mode now_done now s))) =
           [(credit amount (Active_Loans s ! idx))
                \<lparr>Completion_Date := Some (strftime_datetime now_done)\<rparr>]"
proof -
  let ?A = "Active_Loans s"
  let ?s' = "snd (add_collection loan_id amount days_count payment_mode now_done now s)"
  note inA = found_in_active [OF found]
  from ids have dA: "distinct (map Loan_ID ?A)"
    and disj: "set (map Loan_ID ?A) \<inter> set (map Loan_ID (Completed_Loans s)) = {}"
    by (simp_all add: loan_ids_def)
  from paid show A: "Active_Loans ?s' = drop_row idx ?A"
    by (simp add: add_collection_found [OF found])
  from paid show C: "Completed_Loans ?s' = Completed_Loans s @
      [(credit amount (?A ! idx))\<lparr>Completion_Date := Some (strftime_datetime now_done)\<rparr>]"
    by (simp add: add_collection_found [OF found])
  from distinct_drop_row [OF dA inA(1)] inA(2)
  show "loan_id \<notin> set (map Loan_ID (Active_Loans ?s'))"
    by (simp add: A map_drop_row)
  from disj inA(3) have "loan_id \<notin> set (map Loan_ID (Completed_Loans s))" by blast
  then have "filter (\<lambda>l. Loan_ID l = loan_id) (Completed_Loans s) = []"
    by (auto simp: filter_empty_conv)
  moreover from found have "Loan_ID (?A ! idx) = loan_id" by (simp add: first_index_Some)
  ultimately show "filter (\<lambda>l. Loan_ID l = loan_id) (Completed_Loans ?s') =
      [(credit amount (?A ! idx))\<lparr>Completion_Date := Some (strftime_datetime now_done)\<rparr>]"
    by (simp add: C Loan_ID_credit)
qed


lemma positive_sum_nonneg:
  fixes amounts :: "int list"
  shows "\<forall>a \<in> set amounts. 0 < a \<Longrightarrow> 0 \<le> sum_list amounts"
  by (induction amounts) auto

lemma positive_sum_settles:
  fixes r :: int
  assumes "amounts \<noteq> []" and "\<forall>a \<in> set amounts. 0 < a" and "sum_list amounts = r"
  shows "settles r amounts"
  using assms
proof (induction r amounts rule: settles.induct)
  case (1 r)
  then show ?case by simp
next
  case (2 r a)
  then show ?case by simp
next
  case (3 r a b amounts)
  from "3.prems"(2) have "0 < b" and "\<forall>a \<in> set amounts. 0 < a" by simp_all
  with positive_sum_nonneg [of amounts] have pos: "0 < sum_list (b # amounts)" by simp
  from "3.prems"(3) have rest: "sum_list (b # amounts) = r - a" by simp
  with pos have no: "\<not> r - a \<le> 0" by simp
  from "3.prems"(2) have "\<forall>a \<in> set (b # amounts). 0 < a" by simp
  with "3.IH" rest have "settles (r - a) (b # amounts)" by simp
  with no show ?case by simp
qed

lemma loan_count_add_collection:
  "loan_count (snd (add_collection loan_id amount days_count payment_mode now_done now s)) =
     loan_count s"
proof (cases "first_index loan_id (Active_Loans s)")
  case None
  then show ?thesis by (simp add: add_collection_absent)
next
  case (Some idx)
  then have "idx < length (Active_Loans s)" by (simp add: first_index_Some)
  then have "Suc (length (drop_row idx (Active_Loans s))) = length (Active_Loans s)"
    by (rule length_drop_row)
  then show ?thesis
    by (simp add: add_collection_found [OF Some] loan_count_def)
qed

lemma loan_count_add_loan:
  "loan_count (snd (add_loan party mobile total_amt daily days mode now s)) =
     (case fst (add_loan party mobile total_amt daily days mode now s) of
        Inl e \<Rightarrow> loan_count s | Inr loan_id \<Rightarrow> loan_count s + 1)"
  by (simp add: add_loan_result loan_count_def)

lemma balanced_credit: "balanced r \<Longrightarrow> exact_credit amount r \<Longrightarrow> balanced (credit amount r)"
  by (simp add: balanced_def credit_def exact_credit_def)

lemma balanced_stamp: "balanced (r\<lparr>Completion_Date := d\<rparr>) = balanced r"
  by (simp add: balanced_def)

lemma ledger_balanced_add_loan:
  assumes "ledger_balanced s" and "total_amt - 0 = total_amt"
  shows "ledger_balanced (snd (add_loan party mobile total_amt daily days mode now s))"
  using assms by (simp add: add_loan_result ledger_balanced_def balanced_def)

lemma ledger_balanced_add_collection:
  assumes bal: "ledger_balanced s"
      and ex: "exact_request (Collect_Money loan_id amount days_count payment_mode now_done now) s"
  shows "ledger_balanced (snd (add_collection loan_id amount days_count payment_mode now_done now s))"
proof (cases "first_index loan_id (Active_Loans s)")
  case None
  with bal show ?thesis by (simp add: add_collection_absent)
next
  case (Some idx)
  let ?A = "Active_Loans s"
  from Some have len: "idx < length ?A" by (simp add: first_index_Some)
  from ex Some have exact: "exact_credit amount (?A ! idx)" by simp
  from bal have A: "\<forall>r \<in> set ?A. balanced r" and C: "\<forall>r \<in> set (Completed_Loans s). balanced r"
    by (simp_all add: ledger_balanced_def list_all_iff)
  from A len exact have row: "balanced (credit amount (?A ! idx))"
    by (simp add: balanced_credit)
  have upd: "\<forall>r \<in> set (?A[idx := credit amount (?A ! idx)]). balanced r"
    using A row set_update_subset_insert [of ?A idx "credit amount (?A ! idx)"] by auto
  have drp: "\<forall>r \<in> set (drop_row idx ?A). balanced r"
    using A set_drop_row [of idx ?A] by auto
  from upd drp C row show ?thesis
    by (auto simp: add_collection_found [OF Some] ledger_balanced_def list_all_iff balanced_stamp)
qed

lemma ledger_balanced_perform:
  "ledger_balanced s \<Longrightarrow> exact_request r s \<Longrightarrow> ledger_balanced (perform r s)"
  by (cases r) (simp_all add: ledger_balanced_add_loan ledger_balanced_add_collection)

lemma ledger_balanced_session:
  "ledger_balanced s \<Longrightarrow> exact_session rs s \<Longrightarrow> ledger_balanced (session rs s)"
  by (induction rs arbitrary: s) (simp_all add: ledger_balanced_perform)

text \<open>In integer arithmetic every request is exact.\<close>

lemma exact_request_int: "exact_request r (s :: int sheets)"
  by (cases r) (simp_all add: exact_credit_def split: option.splits)

lemma exact_session_int: "exact_session rs (s :: int sheets)"
  by (induction rs arbitrary: s) (simp_all add: exact_request_int)

lemma returned_id_count:
  "returned_id r s =
     map (\<lambda>k. ''L'' @ format_d 4 k) [loan_count s + 1 ..< loan_count (perform r s) + 1]"
proof (cases r)
  case (Give_Money party mobile total_amt daily days mode now)
  then show ?thesis by (simp add: add_loan_result loan_count_def)
next
  case (Collect_Money loan_id amount days_count payment_mode now_done now)
  then show ?thesis by (simp add: loan_count_add_collection)
qed

lemma loan_count_perform: "loan_count s \<le> loan_count (perform r s)"
proof (cases r)
  case (Give_Money party mobile total_amt daily days mode now)
  then show ?thesis by (simp add: add_loan_result loan_count_def)
next
  case (Collect_Money loan_id amount days_count payment_mode now_done now)
  then show ?thesis by (simp add: loan_count_add_collection)
qed

lemma loan_count_session: "loan_count s \<le> loan_count (session rs s)"
proof (induction rs arbitrary: s)
  case Nil
  show ?case by simp
next
  case (Cons r rs)
  have "loan_count s \<le> loan_count (perform r s)" by (rule loan_count_perform)
  also have "\<dots> \<le> loan_count (session rs (perform r s))" by (rule Cons.IH)
  finally show ?case by simp
qed

lemma created_ids_count:
  "created_ids rs s =
     map (\<lambda>k. ''L'' @ format_d 4 k) [loan_count s + 1 ..< loan_count (session rs s) + 1]"
proof (induction rs arbitrary: s)
  case Nil
  show ?case by simp
next
  case (Cons r rs)
  let ?f = "\<lambda>k. ''L'' @ format_d 4 k"
  let ?a = "loan_count s + 1" and ?b = "loan_count (perform r s) + 1"
  let ?c = "loan_count (session rs (perform r s)) + 1"
  have ab: "?a \<le> ?b" using loan_count_perform [of s r] by simp
  have bc: "?b \<le> ?c" using loan_count_session [of "perform r s" rs] by simp
  from ab bc have "[?a ..< ?c] = [?a ..< ?b] @ [?b ..< ?c]"
    by (metis le_Suc_ex upt_add_eq_append)
  then have "map ?f [?a ..< ?c] = map ?f [?a ..< ?b] @ map ?f [?b ..< ?c]"
    by (simp only: map_append)
  with Cons.IH [of "perform r s"] returned_id_count [of r s] show ?case by simp
qed

lemma loan_id_inj: "inj (\<lambda>k. ''L'' @ format_d 4 k)"
  by (rule injI) (simp add: format_d_inj)

subsection \<open>The example ledgers, row by row\<close>

lemma format_d_4_1: "format_d 4 (Suc 0) = ''0001''" by code_simp
lemma format_d_4_2: "format_d 4 (Suc (Suc 0)) = ''0002''" by code_simp
lemma format_d_5_1: "format_d 5 (Suc 0) = ''00001''" by code_simp
lemma format_d_5_2: "format_d 5 (Suc (Suc 0)) = ''00002''" by code_simp

lemma clock0_ordinal: "toordinal clock0 = 738916" by (simp add: clock0_def)
lemma clock1_ordinal: "toordinal clock1 = 738916" by (simp add: clock1_def)
lemma clock0_text: "strftime_datetime clock0 = ''2024-01-31 10:05:09''" by code_simp
lemma clock1_text: "strftime_datetime clock1 = ''2024-01-31 11:05:09''" by code_simp
lemma clock0_end_text: "strftime_date (clock0\<lparr>toordinal := 738926\<rparr>) = ''2024-02-10''" by code_simp
lemma clock1_end_text: "strftime_date (clock1\<lparr>toordinal := 738926\<rparr>) = ''2024-02-10''" by code_simp

lemma ledger1_rows:
  "ledger1 =
     \<lparr>Active_Loans =
        [\<lparr>Loan_ID = ''L0001'', Date = ''2024-01-31 10:05:09'', Party_Name = ''Asha'',
          Mobile_Number = ''9876543210'', Total_Amount = 1000, Daily_Amount = 100,
          Total_Days = 10, End_Date = ''2024-02-10'', Payment_Mode = ''Cash'',
          Collected_Amount = 0, Remaining_Amount = 1000, Status = ''Active'',
          Completion_Date = None\<rparr>],
      Completed_Loans = [], Collections = []\<rparr>"
  by (simp add: ledger1_def add_loan_result empty_sheets_def loan_count_def MAXORDINAL_def
      clock0_ordinal clock0_text clock0_end_text format_d_4_1)

lemma ledger1_found: "first_index ''L0001'' (Active_Loans ledger1) = Some 0"
  by (simp add: ledger1_rows)

lemma ledger_paid_rows:
  "ledger_paid =
     \<lparr>Active_Loans = [],
      Completed_Loans =
        [\<lparr>Loan_ID = ''L0001'', Date = ''2024-01-31 10:05:09'', Party_Name = ''Asha'',
          Mobile_Number = ''9876543210'', Total_Amount = 1000, Daily_Amount = 100,
          Total_Days = 10, End_Date = ''2024-02-10'', Payment_Mode = ''Cash'',
          Collected_Amount = 1000, Remaining_Amount = 0, Status = ''Active'',
          Completion_Date = Some ''2024-01-31 11:05:09''\<rparr>],
      Collections =
        [\<lparr>Collection_ID = ''C00001'', C_Date = ''2024-01-31 11:05:09'', C_Loan_ID = ''L0001'',
          C_Party_Name = ''Asha'', Amount_Collected = 1000, Days_Count = 10,
          C_Payment_Mode = ''Cash''\<rparr>]\<rparr>"
  unfolding ledger_paid_def add_collection_found [OF ledger1_found]
  by (simp add: ledger1_rows credit_def drop_row_def clock1_text format_d_5_1)

lemma ledger2_rows:
  "ledger2 =
     \<lparr>Active_Loans =
        [\<lparr>Loan_ID = ''L0001'', Date = ''2024-01-31 10:05:09'', Party_Name = ''Asha'',
          Mobile_Number = ''9876543210'', Total_Amount = 1000, Daily_Amount = 100,
          Total_Days = 10, End_Date = ''2024-02-10'', Payment_Mode = ''Cash'',
          Collected_Amount = 0, Remaining_Amount = 1000, Status = ''Active'',
          Completion_Date = None\<rparr>,
         \<lparr>Loan_ID = ''L0002'', Date = ''2024-01-31 11:05:09'', Party_Name = ''Ravi'',
          Mobile_Number = ''9123456780'', Total_Amount = 500, Daily_Amount = 50,
          Total_Days = 10, End_Date = ''2024-02-10'', Payment_Mode = ''UPI'',
          Collected_Amount = 0, Remaining_Amount = 500, Status = ''Active'',
          Completion_Date = None\<rparr>],
      Completed_Loans = [], Collections = []\<rparr>"
  unfolding ledger2_def add_loan_result
  by (simp add: ledger1_rows loan_count_def MAXORDINAL_def
      clock1_ordinal clock1_text clock1_end_text format_d_4_2)

subsection \<open>Ledgers built from an empty spreadsheet\<close>

text \<open>
  Every request keeps the loan identifiers numbered and distinct, so a ledger that grew
  from an empty spreadsheet through the two operations has distinct loan identifiers.
  Every request also keeps the status column at Active in both loan sheets.
\<close>

lemma ids_in_sequence_empty: "ids_in_sequence empty_sheets"
  by (simp add: ids_in_sequence_def loan_ids_def empty_sheets_def)

lemma ids_in_sequence_add_loan:
  assumes inv: "ids_in_sequence s"
  shows "ids_in_sequence (snd (add_loan party mobile total_amt daily days mode now s))"
proof (cases "fst (add_loan party mobile total_amt daily days mode now s)")
  case (Inl e)
  have "snd (add_loan party mobile total_amt daily days mode now s) = s"
  proof (cases "\<bar>days\<bar> \<le> 999999999 \<and> 0 < toordinal now + days \<and>
      toordinal now + days \<le> MAXORDINAL")
    case True
    then have "fst (add_loan party mobile total_amt daily days mode now s) =
        Inr (''L'' @ format_d 4 (loan_count s + 1))"
      by (simp add: add_loan_result)
    with Inl show ?thesis by simp
  next
    case False
    then show ?thesis by (simp add: add_loan_result)
  qed
  with inv show ?thesis by simp
next
  case (Inr new_id)
  let ?f = "\<lambda>k. ''L'' @ format_d 4 k"
  let ?n = "loan_count s"
  let ?s' = "snd (add_loan party mobile total_amt daily days mode now s)"
  have ok: "\<bar>days\<bar> \<le> 999999999 \<and> 0 < toordinal now + days \<and>
      toordinal now + days \<le> MAXORDINAL"
  proof (rule ccontr)
    assume "\<not> ?thesis"
    then have "fst (add_loan party mobile total_amt daily days mode now s) = Inl OverflowError"
      by (simp add: add_loan_result)
    with Inr show False by simp
  qed
  then have ids: "loan_ids ?s' =
      map Loan_ID (Active_Loans s) @ [?f (?n + 1)] @ map Loan_ID (Completed_Loans s)"
    by (simp add: add_loan_result loan_ids_def)
  from ok have cnt: "loan_count ?s' = ?n + 1"
    by (simp add: add_loan_result loan_count_def)
  from inv have d: "distinct (loan_ids s)"
    and sub: "set (loan_ids s) \<subseteq> ?f ` {1 .. ?n}"
    unfolding ids_in_sequence_def by blast+
  have fresh: "?f (?n + 1) \<notin> set (loan_ids s)"
  proof
    assume "?f (?n + 1) \<in> set (loan_ids s)"
    with sub obtain k where k: "k \<in> {1 .. ?n}" and "?f (?n + 1) = ?f k" by blast
    then have "?n + 1 = k" by (simp add: format_d_inj)
    with k show False by simp
  qed
  from d fresh have dist: "distinct (loan_ids ?s')"
    unfolding ids by (auto simp: loan_ids_def)
  have "set (loan_ids ?s') \<subseteq> ?f ` {1 .. ?n + 1}"
  proof
    fix x assume "x \<in> set (loan_ids ?s')"
    then have "x = ?f (?n + 1) \<or> x \<in> set (loan_ids s)"
      unfolding ids by (auto simp: loan_ids_def)
    then show "x \<in> ?f ` {1 .. ?n + 1}"
    proof
      assume "x = ?f (?n + 1)"
      then show ?thesis by simp
    next
      assume "x \<in> set (loan_ids s)"
      with sub obtain k where "k \<in> {1 .. ?n}" and "x = ?f k" by blast
      then have "k \<in> {1 .. ?n + 1}" and "x = ?f k" by simp_all
      then show ?thesis by (rule_tac image_eqI)
    qed
  qed
  with dist show ?thesis unfolding ids_in_sequence_def cnt by blast
qed

lemma ids_in_sequence_add_collection:
  assumes inv: "ids_in_sequence s"
  shows "ids_in_sequence (snd (add_collection loan_id amount days_count payment_mode now_done now s))"
proof (cases "first_index loan_id (Active_Loans s)")
  case None
  with inv show ?thesis by (simp add: add_collection_absent)
next
  case (Some idx)
  let ?s' = "snd (add_collection loan_id amount days_count payment_mode now_done now s)"
  let ?ks = "map Loan_ID (Active_Loans s)"
  have cnt: "loan_count ?s' = loan_count s" by (rule loan_count_add_collection)
  from inv have d: "distinct (loan_ids s)" unfolding ids_in_sequence_def by blast
  show ?thesis
  proof (cases "Remaining_Amount (Active_Loans s ! idx) - amount \<le> 0")
    case False
    from partial_step(4) [OF Some False] have "loan_ids ?s' = loan_ids s" .
    with inv cnt show ?thesis unfolding ids_in_sequence_def by simp
  next
    case True
    note c = completion_step [OF Some d True, of days_count payment_mode now_done now]
    note inA = found_in_active [OF Some]
    from Some have lid: "Loan_ID (Active_Loans s ! idx) = loan_id" by (simp add: first_index_Some)
    have ids: "loan_ids ?s' = drop_row idx ?ks @ map Loan_ID (Completed_Loans s) @ [loan_id]"
      by (simp add: loan_ids_def c(1) c(2) map_drop_row Loan_ID_credit lid)
    from d have dA: "distinct ?ks" and dC: "distinct (map Loan_ID (Completed_Loans s))"
      and disj: "set ?ks \<inter> set (map Loan_ID (Completed_Loans s)) = {}"
      by (simp_all add: loan_ids_def)
    have sub: "set (drop_row idx ?ks) \<subseteq> set ?ks" by (rule set_drop_row)
    from distinct_drop_row [OF dA inA(1)] inA(2) have out: "loan_id \<notin> set (drop_row idx ?ks)"
      by simp
    from disj inA(3) have outC: "loan_id \<notin> set (map Loan_ID (Completed_Loans s))" by blast
    from distinct_drop_row_keeps [OF dA] dC disj sub out outC
    have "distinct (loan_ids ?s')" unfolding ids distinct_append by auto
    moreover have "set (loan_ids ?s') \<subseteq> set (loan_ids s)"
    proof
      fix x assume "x \<in> set (loan_ids ?s')"
      then have "x \<in> set (drop_row idx ?ks) \<or> x \<in> set (map Loan_ID (Completed_Loans s)) \<or>
          x = loan_id"
        unfolding ids by auto
      with sub inA(3) have "x \<in> set ?ks \<or> x \<in> set (map Loan_ID (Completed_Loans s))"
        by blast
      then show "x \<in> set (loan_ids s)" by (auto simp: loan_ids_def)
    qed
    ultimately show ?thesis using inv unfolding ids_in_sequence_def cnt by blast
  qed
qed

lemma ids_in_sequence_perform: "ids_in_sequence s \<Longrightarrow> ids_in_sequence (perform r s)"
  by (cases r) (simp_all add: ids_in_sequence_add_loan ids_in_sequence_add_collection)

lemma ids_in_sequence_session: "ids_in_sequence s \<Longrightarrow> ids_in_sequence (session rs s)"
  by (induction rs arbitrary: s) (simp_all add: ids_in_sequence_perform)

lemma distinct_ids_from_empty: "distinct (loan_ids (session rs empty_sheets))"
  using ids_in_sequence_session [OF ids_in_sequence_empty, of rs]
  unfolding ids_in_sequence_def by blast

lemma all_status_active_perform:
  assumes "all_status_active s"
  shows "all_status_active (perform r s)"
proof (cases r)
  case (Give_Money party mobile total_amt daily days mode now)
  with assms show ?thesis by (simp add: add_loan_result all_status_active_def)
next
  case (Collect_Money loan_id amount days_count payment_mode now_done now)
  show ?thesis
  proof (cases "first_index loan_id (Active_Loans s)")
    case None
    with assms Collect_Money show ?thesis by (simp add: add_collection_absent)
  next
    case (Some idx)
    let ?A = "Active_Loans s"
    from Some have len: "idx < length ?A" by (simp add: first_index_Some)
    from assms have A: "\<forall>r \<in> set ?A. Status r = ''Active''"
      and C: "\<forall>r \<in> set (Completed_Loans s). Status r = ''Active''"
      by (simp_all add: all_status_active_def list_all_iff)
    from A len have row: "Status (credit amount (?A ! idx)) = ''Active''"
      by (simp add: credit_def)
    have upd: "\<forall>r \<in> set (?A[idx := credit amount (?A ! idx)]). Status r = ''Active''"
      using A row set_update_subset_insert [of ?A idx "credit amount (?A ! idx)"] by auto
    have drp: "\<forall>r \<in> set (drop_row idx ?A). Status r = ''Active''"
      using A set_drop_row [of idx ?A] by auto
    from upd drp C row Collect_Money show ?thesis
      by (auto simp: add_collection_found [OF Some] all_status_active_def list_all_iff)
  qed
qed

lemma all_status_active_session: "all_status_active s \<Longrightarrow> all_status_active (session rs s)"
  by (induction rs arbitrary: s) (simp_all add: all_status_active_perform)

subsection \<open>Float amounts\<close>

text \<open>
  A collection of exactly the remaining amount brings it to 0 in floats too. In integer
  arithmetic positive amounts that sum to the remaining amount settle it
  (\<open>positive_sum_settles\<close>), and every request is exact (\<open>exact_session_int\<close>).
\<close>

lemma exact_payment_settles: "settles (Finite m e) [Finite m e]"
  by (simp add: minus_double_def zero_double_def less_eq_double_def to_double_def)

lemma integer_amounts_stay_balanced:
  fixes s :: "int sheets"
  shows "ledger_balanced s \<Longrightarrow> ledger_balanced (session rs s)"
  by (rule ledger_balanced_session) (simp_all add: exact_session_int)




section \<open>Claims about the loan lifecycle\<close>









text \<open>
  Claim C4, as amended. For creation inputs with a term of at least one day whose end
  date, the creation date plus the term, is not later than 9999-12-31, \<^verbatim>\<open>add_loan\<close>
  returns the new loan identifier and appends to \<^verbatim>\<open>Active_Loans\<close> one row with that
  identifier, collected amount 0, remaining amount equal to the total amount, status
  Active, and as end date the date that many days after the creation date; the other
  two sheets stay as they were.
\<close>

theorem add_loan_appends_active_loan:
  assumes "1 \<le> days" and "0 < toordinal now" and "toordinal now + days \<le> MAXORDINAL"
  shows "add_loan party mobile total_amt daily days mode now s =
           (Inr (''L'' @ format_d 4 (loan_count s + 1)),
            s\<lparr>Active_Loans := Active_Loans s @
                [\<lparr>Loan_ID = ''L'' @ format_d 4 (loan_count s + 1),
                  Date = strftime_datetime now,
                  Party_Name = party,
                  Mobile_Number = mobile,
                  Total_Amount = total_amt,
                  Daily_Amount = daily,
                  Total_Days = days,
                  End_Date = strftime_date (now\<lparr>toordinal := toordinal now + days\<rparr>),
                  Payment_Mode = mode,
                  Collected_Amount = 0,
                  Remaining_Amount = total_amt,
                  Status = ''Active'',
                  Completion_Date = None\<rparr>]\<rparr>)"
proof -
  from assms have "\<bar>days\<bar> \<le> 999999999" by (simp add: MAXORDINAL_def)
  moreover from assms have "0 < toordinal now + days" by simp
  ultimately show ?thesis using assms(3) by (simp add: add_loan_result)
qed

theorem add_loan_appends_active_loan_witness:
  "(1::int) \<le> 10 \<and> 0 < toordinal clock0 \<and> toordinal clock0 + 10 \<le> MAXORDINAL \<and>
   add_loan ''Asha'' ''9876543210'' 1000 100 10 ''Cash'' clock0 (empty_sheets :: int sheets) =
     (Inr ''L0001'',
      \<lparr>Active_Loans =
        [\<lparr>Loan_ID = ''L0001'', Date = ''2024-01-31 10:05:09'', Party_Name = ''Asha'',
          Mobile_Number = ''9876543210'', Total_Amount = 1000, Daily_Amount = 100,
          Total_Days = 10, End_Date = ''2024-02-10'', Payment_Mode = ''Cash'',
          Collected_Amount = 0, Remaining_Amount = 1000, Status = ''Active'',
          Completion_Date = None\<rparr>],
      Completed_Loans = [], Collections = []\<rparr>)"
proof -
  have a: "(1::int) \<le> 10" by simp
  have b: "0 < toordinal clock0" by (simp add: clock0_ordinal)
  have c: "toordinal clock0 + 10 \<le> MAXORDINAL" by (simp add: clock0_ordinal MAXORDINAL_def)
  from a b c add_loan_appends_active_loan [OF a b c, of "''Asha''" "''9876543210''" 1000 100 "''Cash''" "empty_sheets :: int sheets"]
  show ?thesis
    by (simp add: empty_sheets_def loan_count_def clock0_ordinal clock0_text clock0_end_text
        format_d_4_1)
qed

text \<open>
  The claim as first stated fails for a long term: a name, a ten-digit mobile number,
  positive amounts, a term of 4000000 days and the mode Cash are valid inputs, the end
  date would lie after 9999-12-31, and \<^verbatim>\<open>now + timedelta(days=days)\<close> raises
  OverflowError before any row is built.
\<close>

theorem add_loan_long_term_counterexample:
  "''Asha'' \<noteq> [] \<and> length ''9876543210'' = 10 \<and> (0::int) < 1000 \<and> (0::int) < 100 \<and>
   (1::int) \<le> 4000000 \<and>
   add_loan ''Asha'' ''9876543210'' 1000 100 4000000 ''Cash'' clock0 (empty_sheets :: int sheets) =
     (Inl OverflowError, (empty_sheets :: int sheets))"
  by (simp add: add_loan_result clock0_ordinal MAXORDINAL_def)



text \<open>
  Claim C6. The status column is written once, as Active, by \<^verbatim>\<open>add_loan\<close>;
  \<^verbatim>\<open>add_collection\<close> copies the row to \<^verbatim>\<open>Completed_Loans\<close> with the column as it is.
  After a loan of 1000 is given on an empty ledger and collected in full, the row in
  \<^verbatim>\<open>Completed_Loans\<close> reads Active, where the specification wants Completed. The
  rows of \<^verbatim>\<open>Active_Loans\<close> do read Active, as every loan row does
  (\<open>all_status_active_session\<close>).
\<close>

theorem completed_loan_status_reads_active:
  "Active_Loans (session
     [Give_Money ''Asha'' ''9876543210'' 1000 100 10 ''Cash'' clock0,
      Collect_Money ''L0001'' 1000 10 ''Cash'' clock1 clock1] (empty_sheets :: int sheets)) = [] \<and>
   map Loan_ID (Completed_Loans (session
     [Give_Money ''Asha'' ''9876543210'' 1000 100 10 ''Cash'' clock0,
      Collect_Money ''L0001'' 1000 10 ''Cash'' clock1 clock1] (empty_sheets :: int sheets))) = [''L0001''] \<and>
   map Status (Completed_Loans (session
     [Give_Money ''Asha'' ''9876543210'' 1000 100 10 ''Cash'' clock0,
      Collect_Money ''L0001'' 1000 10 ''Cash'' clock1 clock1] (empty_sheets :: int sheets))) = [''Active'']"
proof -
  have "session
     [Give_Money ''Asha'' ''9876543210'' 1000 100 10 ''Cash'' clock0,
      Collect_Money ''L0001'' 1000 10 ''Cash'' clock1 clock1] (empty_sheets :: int sheets) = ledger_paid"
    by (simp add: ledger_paid_def ledger1_def)
  then show ?thesis by (simp add: ledger_paid_rows)
qed

text \<open>
  Claim C7. A collection for a loan identifier that no row of \<^verbatim>\<open>Active_Loans\<close> carries
  (never created, or moved to \<^verbatim>\<open>Completed_Loans\<close>) raises before anything is written:
  the three sheets after the call are the sheets before it. The exception is Python's
  IndexError, and KeyError when \<^verbatim>\<open>Active_Loans\<close> has no row at all; the specification
  names this failure NotFoundError.
\<close>

theorem collection_on_absent_loan_fails:
  assumes "loan_id \<notin> set (map Loan_ID (Active_Loans s))"
  shows "add_collection loan_id amount days_count payment_mode now_done now s =
           (Inl (if Active_Loans s = [] then KeyError else IndexError), s)"
proof -
  from assms have "first_index loan_id (Active_Loans s) = None"
    by (simp add: first_index_None)
  then show ?thesis by (rule add_collection_absent)
qed

theorem collection_on_absent_loan_fails_witness:
  "''L0001'' \<notin> set (map Loan_ID (Active_Loans ledger_paid)) \<and>
   add_collection ''L0001'' 100 1 ''Cash'' clock1 clock1 ledger_paid = (Inl KeyError, ledger_paid) \<and>
   ''L0009'' \<notin> set (map Loan_ID (Active_Loans ledger1)) \<and>
   add_collection ''L0009'' 100 1 ''Cash'' clock1 clock1 ledger1 = (Inl IndexError, ledger1)"
proof -
  have a: "''L0001'' \<notin> set (map Loan_ID (Active_Loans ledger_paid))"
    by (simp add: ledger_paid_rows)
  have b: "''L0009'' \<notin> set (map Loan_ID (Active_Loans ledger1))"
    by (simp add: ledger1_rows)
  have e: "Active_Loans ledger_paid = []" by (simp add: ledger_paid_rows)
  have n: "Active_Loans ledger1 \<noteq> []" by (simp add: ledger1_rows)
  from collection_on_absent_loan_fails [OF a, of 100 1 "''Cash''" clock1 clock1] e
  have c: "add_collection ''L0001'' 100 1 ''Cash'' clock1 clock1 ledger_paid = (Inl KeyError, ledger_paid)"
    by simp
  from collection_on_absent_loan_fails [OF b, of 100 1 "''Cash''" clock1 clock1] n
  have d: "add_collection ''L0009'' 100 1 ''Cash'' clock1 clock1 ledger1 = (Inl IndexError, ledger1)"
    by simp
  from a b c d show ?thesis by blast
qed

text \<open>
  Claim C8. An identifier that \<^verbatim>\<open>add_loan\<close> returns is L and the successor of the
  combined count of \<^verbatim>\<open>Active_Loans\<close> and \<^verbatim>\<open>Completed_Loans\<close> at the call, padded with
  zeros to four digits. The identifiers returned by the loans created in a session are,
  in order of creation, L and the numbers from the loan count at the start plus one up to
  the loan count at the end. They are pairwise distinct, whatever collections run in
  between.
\<close>

theorem loan_ids_sequential_distinct:
  "(case fst (add_loan party mobile total_amt daily days mode now s) of
      Inl e \<Rightarrow> e = OverflowError
    | Inr new_id \<Rightarrow> new_id = ''L'' @ format_d 4 (loan_count s + 1)) \<and>
   created_ids rs s =
     map (\<lambda>k. ''L'' @ format_d 4 k) [loan_count s + 1 ..< loan_count (session rs s) + 1] \<and>
   distinct (created_ids rs s)"
proof (intro conjI)
  show "case fst (add_loan party mobile total_amt daily days mode now s) of
      Inl e \<Rightarrow> e = OverflowError
    | Inr new_id \<Rightarrow> new_id = ''L'' @ format_d 4 (loan_count s + 1)"
    by (simp add: add_loan_result)
  show "created_ids rs s =
     map (\<lambda>k. ''L'' @ format_d 4 k) [loan_count s + 1 ..< loan_count (session rs s) + 1]"
    by (rule created_ids_count)
  have "distinct (map (\<lambda>k. ''L'' @ format_d 4 k) [loan_count s + 1 ..< loan_count (session rs s) + 1])"
  proof (rule iffD2 [OF distinct_map], rule conjI)
    show "distinct [loan_count s + 1 ..< loan_count (session rs s) + 1]"
      by (rule distinct_upt)
    show "inj_on (\<lambda>k. ''L'' @ format_d 4 k) (set [loan_count s + 1 ..< loan_count (session rs s) + 1])"
      by (rule inj_on_subset [OF loan_id_inj subset_UNIV])
  qed
  then show "distinct (created_ids rs s)" by (simp only: created_ids_count)
qed

theorem loan_ids_sequential_distinct_witness:
  "created_ids
     [Give_Money ''Asha'' ''9876543210'' 1000 100 10 ''Cash'' clock0,
      Give_Money ''Ravi'' ''9123456780'' 500 50 10 ''UPI'' clock1] (empty_sheets :: int sheets) =
     [''L0001'', ''L0002''] \<and>
   distinct (created_ids
     [Give_Money ''Asha'' ''9876543210'' 1000 100 10 ''Cash'' clock0,
      Give_Money ''Ravi'' ''9123456780'' 500 50 10 ''UPI'' clock1] (empty_sheets :: int sheets))"
proof -
  let ?rs = "[Give_Money ''Asha'' ''9876543210'' 1000 100 10 ''Cash'' clock0,
      Give_Money ''Ravi'' ''9123456780'' 500 50 10 ''UPI'' clock1]"
  have s: "session ?rs (empty_sheets :: int sheets) = ledger2"
    by (simp add: ledger2_def ledger1_def)
  have n: "loan_count (session ?rs (empty_sheets :: int sheets)) = 2"
    by (simp only: s) (simp add: ledger2_rows loan_count_def)
  have e: "loan_count (empty_sheets :: int sheets) = 0" by (simp add: loan_count_def empty_sheets_def)
  have u: "[0 + 1 ..< 2 + 1] = [Suc 0, Suc (Suc 0)]" by (simp add: upt_rec)
  from loan_ids_sequential_distinct [where rs = ?rs and s = "empty_sheets :: int sheets", THEN conjunct2]
  show ?thesis
    by (simp only: n e u) (simp add: format_d_4_1 format_d_4_2)
qed

text \<open>
  Claim C9. A collection on an active loan appends exactly one row to \<^verbatim>\<open>Collections\<close>:
  its identifier is C and the count of collection rows plus one, padded with zeros to
  five digits; it carries the timestamp, the loan identifier, the party name read from
  the loan row, the amount, the days count and the payment mode. The rows that were
  there stay as they were, in their order.
\<close>

theorem collection_record_appended:
  assumes "first_index loan_id (Active_Loans s) = Some idx"
  shows "fst (add_collection loan_id amount days_count payment_mode now_done now s) = Inr () \<and>
         Collections (snd (add_collection loan_id amount days_count payment_mode now_done now s)) =
           Collections s @
             [\<lparr>Collection_ID = ''C'' @ format_d 5 (length (Collections s) + 1),
               C_Date = strftime_datetime now,
               C_Loan_ID = loan_id,
               C_Party_Name = Party_Name (Active_Loans s ! idx),
               Amount_Collected = amount,
               Days_Count = days_count,
               C_Payment_Mode = payment_mode\<rparr>]"
  by (simp add: add_collection_found [OF assms])

theorem collection_record_appended_witness:
  "first_index ''L0001'' (Active_Loans ledger1) = Some 0 \<and>
   fst (add_collection ''L0001'' 1000 10 ''Cash'' clock1 clock1 ledger1) = Inr () \<and>
   Collections (snd (add_collection ''L0001'' 1000 10 ''Cash'' clock1 clock1 ledger1)) =
     [\<lparr>Collection_ID = ''C00001'', C_Date = ''2024-01-31 11:05:09'', C_Loan_ID = ''L0001'',
       C_Party_Name = ''Asha'', Amount_Collected = 1000, Days_Count = 10,
       C_Payment_Mode = ''Cash''\<rparr>]"
  using ledger1_found
    collection_record_appended [OF ledger1_found, of 1000 10 "''Cash''" clock1 clock1]
  by (simp add: ledger1_rows clock1_text format_d_5_1)

text \<open>
  Claim C10. \<^verbatim>\<open>add_collection\<close> leaves the combined number of rows of \<^verbatim>\<open>Active_Loans\<close>
  and \<^verbatim>\<open>Completed_Loans\<close> as it was: a completing loan is moved, neither dropped nor
  doubled. \<^verbatim>\<open>add_loan\<close> raises that number by exactly one when it returns an
  identifier, and leaves it when it raises.
\<close>

theorem loan_count_moves_and_grows:
  "loan_count (snd (add_collection loan_id amount days_count payment_mode now_done now s)) =
     loan_count s \<and>
   loan_count (snd (add_loan party mobile total_amt daily days mode now' s)) =
     (case fst (add_loan party mobile total_amt daily days mode now' s) of
        Inl e \<Rightarrow> loan_count s | Inr new_id \<Rightarrow> loan_count s + 1)"
  by (simp only: loan_count_add_collection loan_count_add_loan)

theorem loan_count_moves_and_grows_witness:
  "loan_count ledger1 = 1 \<and>
   loan_count (snd (add_collection ''L0001'' 1000 10 ''Cash'' clock1 clock1 ledger1)) = 1 \<and>
   loan_count (snd (add_loan ''Ravi'' ''9123456780'' 500 50 10 ''UPI'' clock1 ledger1)) = 2"
proof -
  have c: "loan_count ledger1 = 1" by (simp add: loan_count_def ledger1_rows)
  have r: "fst (add_loan ''Ravi'' ''9123456780'' 500 50 10 ''UPI'' clock1 ledger1) = Inr ''L0002''"
    unfolding add_loan_result
    by (simp add: ledger1_rows loan_count_def MAXORDINAL_def clock1_ordinal format_d_4_2)
  from loan_count_moves_and_grows [of "''L0001''" 1000 10 "''Cash''" clock1 clock1 ledger1
      "''Ravi''" "''9123456780''" 500 50 10 "''UPI''" clock1]
  show ?thesis by (simp add: c r)
qed

end
